theory Spec2Isabelle
  imports Main "HOL-Library.Sublist" "HOL-Library.Word"
begin

section \<open>The ICE transport of pion/webrtc (icetransport.go)\<close>

text \<open>
  A shallow embedding of \<^verbatim>\<open>ICETransport\<close>: the struct is a record, every method is a
  function from the state before the call to the value returned and the state after it.
  The gatherer, the agent, the multiplexer and the context package are collaborators
  declared in other files. Their behaviour is a parameter of the model (the record
  \<open>collab\<close> below), so every theorem holds for every behaviour they may have. Each call
  that reaches a collaborator is appended to a call log, the way a test double records
  the calls it receives.
\<close>

subsection \<open>Data\<close>

type_synonym gid = nat    \<comment> \<open>a \<^verbatim>\<open>*ICEGatherer\<close>\<close>
type_synonym aid = nat    \<comment> \<open>a \<^verbatim>\<open>*ice.Agent\<close>\<close>
type_synonym cid = nat    \<comment> \<open>a \<^verbatim>\<open>*ice.Conn\<close>\<close>
type_synonym mid = nat    \<comment> \<open>a \<^verbatim>\<open>*mux.Mux\<close>\<close>
type_synonym ctxid = nat  \<comment> \<open>a \<^verbatim>\<open>context.Context\<close> with its cancel function\<close>
type_synonym ICECandidate = nat   \<comment> \<open>a candidate of the public API, opaque here\<close>
type_synonym ice_Candidate = nat  \<comment> \<open>an \<^verbatim>\<open>ice.Candidate\<close>, opaque here\<close>

text \<open>
  Modelled from the spec: the type \<^verbatim>\<open>ICERole\<close> and its constants are declared outside
  icetransport.go. The spec gives the two roles and speaks of "any other role value";
  every other value of the Go integer type is \<open>ICERoleOther\<close>.
\<close>

datatype ICERole = ICERoleControlling | ICERoleControlled | ICERoleOther int

text \<open>
  Modelled from the spec: the type \<^verbatim>\<open>ICETransportState\<close> and its constants are declared
  outside icetransport.go. The spec lists the seven states; \<open>ICETransportStateUnknown\<close>
  stands for \<^verbatim>\<open>ICETransportState(0)\<close>, which \<^verbatim>\<open>State\<close> returns when nothing was stored.
\<close>

datatype ICETransportState =
    ICETransportStateUnknown
  | ICETransportStateNew
  | ICETransportStateChecking
  | ICETransportStateConnected
  | ICETransportStateCompleted
  | ICETransportStateFailed
  | ICETransportStateDisconnected
  | ICETransportStateClosed

record ICEParameters =
  UsernameFragment :: string
  Password :: string

text \<open>
  Errors are values. \<open>Errorf_w e msg\<close> is \<^verbatim>\<open>fmt.Errorf("%w: msg", e)\<close>, \<open>External\<close> is an
  error produced by a collaborator, \<open>multiError\<close> is what \<^verbatim>\<open>util.FlattenErrs\<close> builds.
\<close>

datatype error =
    errICETransportNotInNew
  | errICEGathererNotStarted
  | errICEAgentNotExist
  | errICERoleUnknown
  | errICETransportClosed
  | Errorf_w error string
  | External string
  | multiError "error list"

text \<open>A method returning \<^verbatim>\<open>error\<close> returns \<open>None\<close> for nil; a nil dereference panics.\<close>

datatype outcome = Returns "error option" | Panics

record mux_Config =
  Conn :: "cid option"
  BufferSize :: int

text \<open>The calls that reach a collaborator, in the order they are made.\<close>

datatype event =
    EvCreateAgent gid
  | EvOnConnectionStateChange aid
  | EvOnSelectedCandidatePairChange aid
  | EvWithCancel
  | EvCancel ctxid
  | EvDial aid "ctxid option" string string
  | EvAccept aid "ctxid option" string string
  | EvNewMux mux_Config
  | EvMuxClose mid
  | EvGathererClose gid
  | EvGathererGracefulClose gid
  | EvAddRemoteCandidate aid "ice_Candidate option"
  | EvSetRemoteCredentials aid string string
  | EvRestart aid string string
  | EvGather gid
  | EvGetLocalParameters gid

text \<open>
  The collaborators, over a state \<open>'e\<close> of their own. A call takes that state and returns
  its result with the state after it.
\<close>

record 'e collab =
  getAgent :: "gid \<Rightarrow> 'e \<Rightarrow> aid option"
  createAgent :: "gid \<Rightarrow> 'e \<Rightarrow> error option \<times> 'e"
  gatherer_Close :: "gid \<Rightarrow> 'e \<Rightarrow> error option \<times> 'e"
  gatherer_GracefulClose :: "gid \<Rightarrow> 'e \<Rightarrow> error option \<times> 'e"
  gatherer_Gather :: "gid \<Rightarrow> 'e \<Rightarrow> error option \<times> 'e"
  gatherer_GetLocalParameters :: "gid \<Rightarrow> 'e \<Rightarrow> (ICEParameters \<times> error option) \<times> 'e"
  getReceiveMTU :: "gid \<Rightarrow> 'e \<Rightarrow> 64 word"
  settingEngine_candidates :: "gid \<Rightarrow> 'e \<Rightarrow> string \<times> string"
  agent_OnConnectionStateChange :: "aid \<Rightarrow> 'e \<Rightarrow> error option \<times> 'e"
  agent_OnSelectedCandidatePairChange :: "aid \<Rightarrow> 'e \<Rightarrow> error option \<times> 'e"
  agent_Dial :: "aid \<Rightarrow> ctxid option \<Rightarrow> string \<Rightarrow> string \<Rightarrow> 'e \<Rightarrow> (cid option \<times> error option) \<times> 'e"
  agent_Accept :: "aid \<Rightarrow> ctxid option \<Rightarrow> string \<Rightarrow> string \<Rightarrow> 'e \<Rightarrow> (cid option \<times> error option) \<times> 'e"
  agent_AddRemoteCandidate :: "aid \<Rightarrow> ice_Candidate option \<Rightarrow> 'e \<Rightarrow> error option \<times> 'e"
  agent_SetRemoteCredentials :: "aid \<Rightarrow> string \<Rightarrow> string \<Rightarrow> 'e \<Rightarrow> error option \<times> 'e"
  agent_GetRemoteUserCredentials :: "aid \<Rightarrow> 'e \<Rightarrow> string \<times> string \<times> error option"
  agent_Restart :: "aid \<Rightarrow> string \<Rightarrow> string \<Rightarrow> 'e \<Rightarrow> error option \<times> 'e"
  toICE :: "ICECandidate \<Rightarrow> error + ice_Candidate"
  context_WithCancel :: "'e \<Rightarrow> ctxid \<times> 'e"
  context_cancel :: "ctxid \<Rightarrow> 'e \<Rightarrow> unit \<times> 'e"
  mux_NewMux :: "mux_Config \<Rightarrow> 'e \<Rightarrow> mid \<times> 'e"
  mux_Close :: "mid \<Rightarrow> 'e \<Rightarrow> error option \<times> 'e"

text \<open>
  The struct (the lock, the logger and the handler slots apart), followed by the state of
  the collaborators and the call log.
\<close>

record 'e ICETransport =
  role :: ICERole
  state :: "ICETransportState option"
  gatherer :: "gid option"
  conn :: "cid option"
  mux :: "mid option"
  ctx :: "ctxid option"
  ctxCancel :: "ctxid option"
  ext :: 'e
  trace :: "event list"

subsection \<open>Operations\<close>

definition call :: "event \<Rightarrow> ('e \<Rightarrow> 'a \<times> 'e) \<Rightarrow> 'e ICETransport \<Rightarrow> 'a \<times> 'e ICETransport" where
  "call ev f t = (case f (ext t) of (r, e') \<Rightarrow> (r, t\<lparr>ext := e', trace := trace t @ [ev]\<rparr>))"

definition State :: "'e ICETransport \<Rightarrow> ICETransportState" where
  "State t = (case state t of Some v \<Rightarrow> v | None \<Rightarrow> ICETransportStateUnknown)"

definition setState :: "ICETransportState \<Rightarrow> 'e ICETransport \<Rightarrow> 'e ICETransport" where
  "setState i t = t\<lparr>state := Some i\<rparr>"

definition NewICETransport :: "gid option \<Rightarrow> 'e \<Rightarrow> 'e ICETransport" where
  "NewICETransport g e =
     setState ICETransportStateNew
       \<lparr>role = ICERoleOther 0, state = None, gatherer = g, conn = None, mux = None,
        ctx = None, ctxCancel = None, ext = e, trace = []\<rparr>"

definition Role :: "'e ICETransport \<Rightarrow> ICERole" where
  "Role t = role t"

definition ensureGatherer :: "'e collab \<Rightarrow> 'e ICETransport \<Rightarrow> error option \<times> 'e ICETransport" where
  "ensureGatherer env t =
     (case gatherer t of
        None \<Rightarrow> (Some errICEGathererNotStarted, t)
      | Some g \<Rightarrow>
          if getAgent env g (ext t) = None
          then call (EvCreateAgent g) (createAgent env g) t
          else (None, t))"

text \<open>
  \<^verbatim>\<open>Start\<close> holds the lock twice, with the dial or accept in between. The three parts are
  three functions. The first returns early (\<open>Inl\<close>) or hands the agent and the role, its
  local variables, to the rest (\<open>Inr\<close>).
\<close>

definition Start_locked1 ::
  "'e collab \<Rightarrow> gid option \<Rightarrow> ICERole option \<Rightarrow> 'e ICETransport
     \<Rightarrow> (outcome + aid \<times> ICERole) \<times> 'e ICETransport" where
  "Start_locked1 env gatherer' role' t =
     (if State t \<noteq> ICETransportStateNew then (Inl (Returns (Some errICETransportNotInNew)), t)
      else
        let t1 = (case gatherer' of Some g \<Rightarrow> t\<lparr>gatherer := Some g\<rparr> | None \<Rightarrow> t) in
        case ensureGatherer env t1 of
          (Some err, t2) \<Rightarrow> (Inl (Returns (Some err)), t2)
        | (None, t2) \<Rightarrow>
            (case gatherer t2 of
               None \<Rightarrow> (Inl Panics, t2)
             | Some g \<Rightarrow>
                 (case getAgent env g (ext t2) of
                    None \<Rightarrow>
                      (Inl (Returns (Some (Errorf_w errICEAgentNotExist
                                             ''unable to start ICETransport''))), t2)
                  | Some agent \<Rightarrow>
                      (case call (EvOnConnectionStateChange agent)
                                 (agent_OnConnectionStateChange env agent) t2 of
                         (Some err, t3) \<Rightarrow> (Inl (Returns (Some err)), t3)
                       | (None, t3) \<Rightarrow>
                           (case call (EvOnSelectedCandidatePairChange agent)
                                      (agent_OnSelectedCandidatePairChange env agent) t3 of
                              (Some err, t4) \<Rightarrow> (Inl (Returns (Some err)), t4)
                            | (None, t4) \<Rightarrow>
                                let r = (case role' of None \<Rightarrow> ICERoleControlled | Some x \<Rightarrow> x);
                                    t5 = t4\<lparr>role := r\<rparr>
                                in (case call EvWithCancel (context_WithCancel env) t5 of
                                      (c, t6) \<Rightarrow>
                                        (Inr (agent, r),
                                         t6\<lparr>ctx := Some c, ctxCancel := Some c\<rparr>)))))))"

text \<open>
  The dial or accept, made with the lock released. It reads the field \<^verbatim>\<open>t.ctx\<close> and the
  local role.
\<close>

definition Start_connect ::
  "'e collab \<Rightarrow> aid \<Rightarrow> ICEParameters \<Rightarrow> ICERole \<Rightarrow> 'e ICETransport
     \<Rightarrow> (cid option \<times> error option) \<times> 'e ICETransport" where
  "Start_connect env agent params r t =
     (case r of
        ICERoleControlling \<Rightarrow>
          call (EvDial agent (ctx t) (UsernameFragment params) (Password params))
               (agent_Dial env agent (ctx t) (UsernameFragment params) (Password params)) t
      | ICERoleControlled \<Rightarrow>
          call (EvAccept agent (ctx t) (UsernameFragment params) (Password params))
               (agent_Accept env agent (ctx t) (UsernameFragment params) (Password params)) t
      | ICERoleOther _ \<Rightarrow> ((None, Some errICERoleUnknown), t))"

text \<open>
  The part of \<^verbatim>\<open>Start\<close> after the lock is taken again. The receive MTU is a Go \<^verbatim>\<open>uint\<close>
  (64 bits on the platforms the package builds for) and \<^verbatim>\<open>int(...)\<close> reads the same bits
  as a signed number, so a value from \<open>2 ^ 63\<close> on becomes negative.
\<close>

definition Start_locked2 ::
  "'e collab \<Rightarrow> cid option \<Rightarrow> error option \<Rightarrow> 'e ICETransport \<Rightarrow> outcome \<times> 'e ICETransport" where
  "Start_locked2 env iceConn err t =
     (case err of
        Some e \<Rightarrow> (Returns (Some e), t)
      | None \<Rightarrow>
          if State t = ICETransportStateClosed then (Returns (Some errICETransportClosed), t)
          else
            (let t1 = t\<lparr>conn := iceConn\<rparr> in
             (case gatherer t1 of
                None \<Rightarrow> (Panics, t1)
              | Some g \<Rightarrow>
                  (let config =
                         \<lparr>Conn = conn t1, BufferSize = sint (getReceiveMTU env g (ext t1))\<rparr>
                   in (case call (EvNewMux config) (mux_NewMux env config) t1 of
                         (m, t2) \<Rightarrow> (Returns None, t2\<lparr>mux := Some m\<rparr>))))))"

text \<open>
  Modelled from the spec: \<^verbatim>\<open>util.FlattenErrs\<close> is declared outside icetransport.go. The
  spec says that the errors of the closes are combined and none is dropped: the nil
  entries are left out, and no error at all is nil.
\<close>

definition FlattenErrs :: "error option list \<Rightarrow> error option" where
  "FlattenErrs errs =
     (let errs2 = concat (map (\<lambda>e. case e of None \<Rightarrow> [] | Some x \<Rightarrow> [x]) errs)
      in if errs2 = [] then None else Some (multiError errs2))"

definition stop :: "'e collab \<Rightarrow> bool \<Rightarrow> 'e ICETransport \<Rightarrow> outcome \<times> 'e ICETransport" where
  "stop env shouldGracefullyClose t =
     (let t1 = setState ICETransportStateClosed t;
          t2 = (case ctxCancel t1 of
                  Some c \<Rightarrow> snd (call (EvCancel c) (context_cancel env c) t1)
                | None \<Rightarrow> t1);
          mux' = mux t2;
          gatherer' = gatherer t2
      in case mux' of
           Some m \<Rightarrow>
             (case (case (shouldGracefullyClose, gatherer') of
                      (True, Some g) \<Rightarrow>
                        (case call (EvGathererGracefulClose g) (gatherer_GracefulClose env g) t2 of
                           (e, t3) \<Rightarrow> ([e], t3))
                    | _ \<Rightarrow> ([], t2)) of
                (closeErrs, t3) \<Rightarrow>
                  (case call (EvMuxClose m) (mux_Close env m) t3 of
                     (e, t4) \<Rightarrow> (Returns (FlattenErrs (closeErrs @ [e])), t4)))
         | None \<Rightarrow>
             (case gatherer' of
                Some g \<Rightarrow>
                  if shouldGracefullyClose
                  then (case call (EvGathererGracefulClose g) (gatherer_GracefulClose env g) t2 of
                          (e, t3) \<Rightarrow> (Returns e, t3))
                  else (case call (EvGathererClose g) (gatherer_Close env g) t2 of
                          (e, t3) \<Rightarrow> (Returns e, t3))
              | None \<Rightarrow> (Returns None, t2)))"

definition Stop :: "'e collab \<Rightarrow> 'e ICETransport \<Rightarrow> outcome \<times> 'e ICETransport" where
  "Stop env t = stop env False t"

definition GracefulStop :: "'e collab \<Rightarrow> 'e ICETransport \<Rightarrow> outcome \<times> 'e ICETransport" where
  "GracefulStop env t = stop env True t"

text \<open>The loop of \<^verbatim>\<open>SetRemoteCandidates\<close> over the candidates.\<close>

fun SetRemoteCandidates_loop ::
  "'e collab \<Rightarrow> aid \<Rightarrow> ICECandidate list \<Rightarrow> 'e ICETransport \<Rightarrow> outcome \<times> 'e ICETransport" where
  "SetRemoteCandidates_loop env agent [] t = (Returns None, t)"
| "SetRemoteCandidates_loop env agent (c # cs) t =
     (case toICE env c of
        Inl err \<Rightarrow> (Returns (Some err), t)
      | Inr i \<Rightarrow>
          (case call (EvAddRemoteCandidate agent (Some i))
                     (agent_AddRemoteCandidate env agent (Some i)) t of
             (Some err, t1) \<Rightarrow> (Returns (Some err), t1)
           | (None, t1) \<Rightarrow> SetRemoteCandidates_loop env agent cs t1))"

definition SetRemoteCandidates ::
  "'e collab \<Rightarrow> ICECandidate list \<Rightarrow> 'e ICETransport \<Rightarrow> outcome \<times> 'e ICETransport" where
  "SetRemoteCandidates env remoteCandidates t =
     (case ensureGatherer env t of
        (Some err, t1) \<Rightarrow> (Returns (Some err), t1)
      | (None, t1) \<Rightarrow>
          (case gatherer t1 of
             None \<Rightarrow> (Panics, t1)
           | Some g \<Rightarrow>
               (case getAgent env g (ext t1) of
                  None \<Rightarrow>
                    (Returns (Some (Errorf_w errICEAgentNotExist
                                      ''unable to set remote candidates'')), t1)
                | Some agent \<Rightarrow> SetRemoteCandidates_loop env agent remoteCandidates t1)))"

definition AddRemoteCandidate ::
  "'e collab \<Rightarrow> ICECandidate option \<Rightarrow> 'e ICETransport \<Rightarrow> outcome \<times> 'e ICETransport" where
  "AddRemoteCandidate env remoteCandidate t =
     (case ensureGatherer env t of
        (Some err, t1) \<Rightarrow> (Returns (Some err), t1)
      | (None, t1) \<Rightarrow>
          (case (case remoteCandidate of
                   None \<Rightarrow> Inr None
                 | Some rc \<Rightarrow> (case toICE env rc of Inl err \<Rightarrow> Inl err | Inr i \<Rightarrow> Inr (Some i))) of
             Inl err \<Rightarrow> (Returns (Some err), t1)
           | Inr c \<Rightarrow>
               (case gatherer t1 of
                  None \<Rightarrow> (Panics, t1)
                | Some g \<Rightarrow>
                    (case getAgent env g (ext t1) of
                       None \<Rightarrow>
                         (Returns (Some (Errorf_w errICEAgentNotExist
                                           ''unable to add remote candidates'')), t1)
                     | Some agent \<Rightarrow>
                         (case call (EvAddRemoteCandidate agent c)
                                    (agent_AddRemoteCandidate env agent c) t1 of
                            (e, t2) \<Rightarrow> (Returns e, t2))))))"

definition setRemoteCredentials ::
  "'e collab \<Rightarrow> string \<Rightarrow> string \<Rightarrow> 'e ICETransport \<Rightarrow> outcome \<times> 'e ICETransport" where
  "setRemoteCredentials env newUfrag newPwd t =
     (case gatherer t of
        None \<Rightarrow> (Panics, t)
      | Some g \<Rightarrow>
          (case getAgent env g (ext t) of
             None \<Rightarrow>
               (Returns (Some (Errorf_w errICEAgentNotExist ''unable to SetRemoteCredentials'')), t)
           | Some agent \<Rightarrow>
               (case call (EvSetRemoteCredentials agent newUfrag newPwd)
                          (agent_SetRemoteCredentials env agent newUfrag newPwd) t of
                  (e, t1) \<Rightarrow> (Returns e, t1))))"

text \<open>\<open>None\<close> is the panic of a nil gatherer.\<close>

definition haveRemoteCredentialsChange ::
  "'e collab \<Rightarrow> string \<Rightarrow> string \<Rightarrow> 'e ICETransport \<Rightarrow> bool option" where
  "haveRemoteCredentialsChange env newUfrag newPwd t =
     (case gatherer t of
        None \<Rightarrow> None
      | Some g \<Rightarrow>
          (case getAgent env g (ext t) of
             None \<Rightarrow> Some False
           | Some agent \<Rightarrow>
               (case agent_GetRemoteUserCredentials env agent (ext t) of
                  (uFrag, uPwd, Some err) \<Rightarrow> Some False
                | (uFrag, uPwd, None) \<Rightarrow> Some (uFrag \<noteq> newUfrag \<or> uPwd \<noteq> newPwd))))"

definition restart :: "'e collab \<Rightarrow> 'e ICETransport \<Rightarrow> outcome \<times> 'e ICETransport" where
  "restart env t =
     (case gatherer t of
        None \<Rightarrow> (Panics, t)
      | Some g \<Rightarrow>
          (case getAgent env g (ext t) of
             None \<Rightarrow>
               (Returns (Some (Errorf_w errICEAgentNotExist ''unable to restart ICETransport'')), t)
           | Some agent \<Rightarrow>
               (case settingEngine_candidates env g (ext t) of
                  (ufrag, pwd) \<Rightarrow>
                    (case call (EvRestart agent ufrag pwd) (agent_Restart env agent ufrag pwd) t of
                       (Some err, t1) \<Rightarrow> (Returns (Some err), t1)
                     | (None, t1) \<Rightarrow>
                         (case call (EvGather g) (gatherer_Gather env g) t1 of
                            (e, t2) \<Rightarrow> (Returns e, t2))))))"

text \<open>\<open>None\<close> is the panic of a nil gatherer, which \<open>ensureGatherer\<close> rules out.\<close>

definition GetLocalParameters ::
  "'e collab \<Rightarrow> 'e ICETransport \<Rightarrow> (ICEParameters \<times> error option) option \<times> 'e ICETransport" where
  "GetLocalParameters env t =
     (case ensureGatherer env t of
        (Some err, t1) \<Rightarrow> (Some (\<lparr>UsernameFragment = [], Password = []\<rparr>, Some err), t1)
      | (None, t1) \<Rightarrow>
          (case gatherer t1 of
             None \<Rightarrow> (None, t1)
           | Some g \<Rightarrow>
               (case call (EvGetLocalParameters g) (gatherer_GetLocalParameters env g) t1 of
                  (r, t2) \<Rightarrow> (Some r, t2))))"

subsection \<open>Interleavings\<close>

text \<open>
  The steps that other threads of execution can take while \<^verbatim>\<open>Start\<close> has released the
  lock, and between any two calls: the critical sections of the methods, the agent's
  state callback (which stores the state it is given), and a change of the collaborators'
  state that no call of the transport caused. The parts of \<^verbatim>\<open>Start\<close> are steps of their
  own, with any values for its local variables. The methods that only read (\<^verbatim>\<open>State\<close>,
  \<^verbatim>\<open>Role\<close>, \<^verbatim>\<open>haveRemoteCredentialsChange\<close>, the selected pair and the statistics) and the
  handler registry change nothing here and are no steps.
\<close>

datatype 'e op =
    OpStart_locked1 "gid option" "ICERole option"
  | OpStart_connect aid ICEParameters ICERole
  | OpStart_locked2 "cid option" "error option"
  | OpStop bool
  | OpSetRemoteCandidates "ICECandidate list"
  | OpAddRemoteCandidate "ICECandidate option"
  | OpSetRemoteCredentials string string
  | OpRestart
  | OpGetLocalParameters
  | OpOnConnectionStateChange ICETransportState
  | OpExternal "'e \<Rightarrow> 'e"

fun exec :: "'e collab \<Rightarrow> 'e op \<Rightarrow> 'e ICETransport \<Rightarrow> 'e ICETransport" where
  "exec env (OpStart_locked1 g r) t = snd (Start_locked1 env g r t)"
| "exec env (OpStart_connect a p r) t = snd (Start_connect env a p r t)"
| "exec env (OpStart_locked2 c e) t = snd (Start_locked2 env c e t)"
| "exec env (OpStop b) t = snd (stop env b t)"
| "exec env (OpSetRemoteCandidates cs) t = snd (SetRemoteCandidates env cs t)"
| "exec env (OpAddRemoteCandidate c) t = snd (AddRemoteCandidate env c t)"
| "exec env (OpSetRemoteCredentials u p) t = snd (setRemoteCredentials env u p t)"
| "exec env OpRestart t = snd (restart env t)"
| "exec env OpGetLocalParameters t = snd (GetLocalParameters env t)"
| "exec env (OpOnConnectionStateChange s) t = setState s t"
| "exec env (OpExternal f) t = t\<lparr>ext := f (ext t)\<rparr>"

fun run :: "'e collab \<Rightarrow> 'e op list \<Rightarrow> 'e ICETransport \<Rightarrow> 'e ICETransport" where
  "run env [] t = t"
| "run env (x # xs) t = run env xs (exec env x t)"

text \<open>
  \<^verbatim>\<open>Start\<close>, with the steps \<open>before\<close> that other threads take between the release of the
  lock and the dial or accept, and the steps \<open>after\<close> they take before the lock is taken
  again. A step that takes effect while the dial or accept blocks is one of \<open>before\<close>:
  the collaborator answers the dial from the state it finds.
\<close>

definition Start ::
  "'e collab \<Rightarrow> 'e op list \<Rightarrow> 'e op list \<Rightarrow> gid option \<Rightarrow> ICEParameters \<Rightarrow> ICERole option
     \<Rightarrow> 'e ICETransport \<Rightarrow> outcome \<times> 'e ICETransport" where
  "Start env before after gatherer' params role' t =
     (case Start_locked1 env gatherer' role' t of
        (Inl out, t1) \<Rightarrow> (out, t1)
      | (Inr (agent, r), t1) \<Rightarrow>
          (case Start_connect env agent params r (run env before t1) of
             ((iceConn, err), t3) \<Rightarrow> Start_locked2 env iceConn err (run env after t3)))"


subsection \<open>Predicates used in the statements\<close>

text \<open>A step left the fields of the struct as they were.\<close>

definition untouched :: "'e ICETransport \<Rightarrow> 'e ICETransport \<Rightarrow> bool" where
  "untouched t t' \<longleftrightarrow>
     role t' = role t \<and> state t' = state t \<and> gatherer t' = gatherer t \<and> conn t' = conn t \<and>
     mux t' = mux t \<and> ctx t' = ctx t \<and> ctxCancel t' = ctxCancel t"

text \<open>The call log of the second transport continues the call log of the first.\<close>

definition extends :: "'e ICETransport \<Rightarrow> 'e ICETransport \<Rightarrow> bool" where
  "extends t t' \<longleftrightarrow> prefix (trace t) (trace t')"


text \<open>The first part of \<^verbatim>\<open>Start\<close> is the only step that stores a role.\<close>

fun stores_role :: "'e op \<Rightarrow> bool" where
  "stores_role (OpStart_locked1 g r) = True"
| "stores_role x = False"

text \<open>
  The spec's words for \<^verbatim>\<open>SetRemoteCandidates\<close>, to compare the loop with. \<open>applied\<close> is
  the transport after the converted candidates were handed to the agent one after the
  other, whatever the agent answered. \<open>added_ok\<close> says that the agent, starting from the
  given state of the collaborators, returned no error for any of them. \<open>fails_at\<close> says
  that candidate \<open>c\<close>, coming after the candidates converted to \<open>is\<close>, fails with \<open>e\<close> in
  its conversion (and is not handed over) or in its addition, and that nothing happens
  after it.
\<close>

fun applied :: "'e collab \<Rightarrow> aid \<Rightarrow> ice_Candidate list \<Rightarrow> 'e ICETransport \<Rightarrow> 'e ICETransport" where
  "applied env a [] t = t"
| "applied env a (i # is) t =
     applied env a is
       (snd (call (EvAddRemoteCandidate a (Some i)) (agent_AddRemoteCandidate env a (Some i)) t))"

fun added_ok :: "'e collab \<Rightarrow> aid \<Rightarrow> ice_Candidate list \<Rightarrow> 'e \<Rightarrow> bool" where
  "added_ok env a [] e = True"
| "added_ok env a (i # is) e =
     (fst (agent_AddRemoteCandidate env a (Some i) e) = None \<and>
      added_ok env a is (snd (agent_AddRemoteCandidate env a (Some i) e)))"

definition fails_at ::
  "'e collab \<Rightarrow> aid \<Rightarrow> ICECandidate \<Rightarrow> ice_Candidate list \<Rightarrow> error \<Rightarrow> 'e ICETransport
     \<Rightarrow> 'e ICETransport \<Rightarrow> bool" where
  "fails_at env a c is e t t' \<longleftrightarrow>
     (case toICE env c of
        Inl err \<Rightarrow> err = e \<and> t' = applied env a is t
      | Inr i \<Rightarrow>
          fst (agent_AddRemoteCandidate env a (Some i) (ext (applied env a is t))) = Some e \<and>
          t' = applied env a (is @ [i]) t)"

subsection \<open>A test double\<close>

text \<open>
  Collaborators for the examples: one gatherer whose agent is created on demand, a dial
  and an accept that fail once their context is cancelled, and closes that succeed.
\<close>

record double =
  d_agent :: "aid option"
  d_cancelled :: "ctxid list"
  d_fresh :: nat

definition double_env :: "double collab" where
  "double_env =
     \<lparr>getAgent = (\<lambda>g e. d_agent e),
      createAgent = (\<lambda>g e. (None, e\<lparr>d_agent := Some 7\<rparr>)),
      gatherer_Close = (\<lambda>g e. (None, e\<lparr>d_agent := None\<rparr>)),
      gatherer_GracefulClose = (\<lambda>g e. (None, e\<lparr>d_agent := None\<rparr>)),
      gatherer_Gather = (\<lambda>g e. (None, e)),
      gatherer_GetLocalParameters =
        (\<lambda>g e. ((\<lparr>UsernameFragment = ''local'', Password = ''secret''\<rparr>, None), e)),
      getReceiveMTU = (\<lambda>g e. 8192),
      settingEngine_candidates = (\<lambda>g e. ([], [])),
      agent_OnConnectionStateChange = (\<lambda>a e. (None, e)),
      agent_OnSelectedCandidatePairChange = (\<lambda>a e. (None, e)),
      agent_Dial = (\<lambda>a c u p e.
        if c \<in> Some ` set (d_cancelled e)
        then ((None, Some (External ''context canceled'')), e)
        else ((Some 3, None), e)),
      agent_Accept = (\<lambda>a c u p e.
        if c \<in> Some ` set (d_cancelled e)
        then ((None, Some (External ''context canceled'')), e)
        else ((Some 4, None), e)),
      agent_AddRemoteCandidate = (\<lambda>a c e. (None, e)),
      agent_SetRemoteCredentials = (\<lambda>a u p e. (None, e)),
      agent_GetRemoteUserCredentials = (\<lambda>a e. ([], [], None)),
      agent_Restart = (\<lambda>a u p e. (None, e)),
      toICE = (\<lambda>c. Inr c),
      context_WithCancel = (\<lambda>e. (d_fresh e, e\<lparr>d_fresh := Suc (d_fresh e)\<rparr>)),
      context_cancel = (\<lambda>c e. ((), e\<lparr>d_cancelled := c # d_cancelled e\<rparr>)),
      mux_NewMux = (\<lambda>cfg e. (d_fresh e, e\<lparr>d_fresh := Suc (d_fresh e)\<rparr>)),
      mux_Close = (\<lambda>m e. (None, e))\<rparr>"

definition double0 :: double where
  "double0 = \<lparr>d_agent = None, d_cancelled = [], d_fresh = 0\<rparr>"

text \<open>A fresh transport bound to gatherer 0, and the parameters of the spec's scenario.\<close>

definition fresh :: "double ICETransport" where
  "fresh = NewICETransport (Some 0) double0"

definition uf1 :: ICEParameters where
  "uf1 = \<lparr>UsernameFragment = ''uf1'', Password = ''pw1''\<rparr>"

text \<open>The double with a gatherer whose \<^verbatim>\<open>Close\<close> fails.\<close>

definition failing_close_env :: "double collab" where
  "failing_close_env =
     double_env\<lparr>gatherer_Close := (\<lambda>g e. (Some (External ''close failed''), e))\<rparr>"

text \<open>The double with an agent that refuses candidate 2, and a conversion that fails on 9.\<close>

definition picky_env :: "double collab" where
  "picky_env =
     double_env
       \<lparr>agent_AddRemoteCandidate :=
          (\<lambda>a c e. if c = Some 2 then (Some (External ''refused''), e) else (None, e)),
        toICE := (\<lambda>c. if c = 9 then Inl (External ''bad candidate'') else Inr c)\<rparr>"

text \<open>The double with a gatherer and a multiplexer whose closes both fail.\<close>

definition failing_closes_env :: "double collab" where
  "failing_closes_env =
     double_env
       \<lparr>gatherer_GracefulClose := (\<lambda>g e. (Some (External ''gatherer close failed''), e)),
        mux_Close := (\<lambda>m e. (Some (External ''mux close failed''), e))\<rparr>"

text \<open>The fresh transport after a \<^verbatim>\<open>Start\<close> as the controlling side that nothing disturbed.\<close>

definition started :: "double ICETransport" where
  "started = snd (Start double_env [] [] None uf1 (Some ICERoleControlling) fresh)"

section \<open>Properties\<close>

subsection \<open>What each step leaves alone\<close>

lemma untouched_refl [simp]: "untouched t t"
  by (simp add: untouched_def)

lemma untouched_trans: "untouched t t' \<Longrightarrow> untouched t' t'' \<Longrightarrow> untouched t t''"
  by (simp add: untouched_def)

lemma untouched_call: "untouched t (snd (call ev f t))"
  by (simp add: untouched_def call_def split: prod.splits)

lemma untouched_call': "call ev f t = (r, t') \<Longrightarrow> untouched t t'"
  using untouched_call [of t ev f] by simp

lemma untouched_ensureGatherer: "untouched t (snd (ensureGatherer env t))"
  by (simp add: ensureGatherer_def untouched_call split: option.splits)

lemma untouched_Start_connect: "untouched t (snd (Start_connect env a p r t))"
  by (simp add: Start_connect_def untouched_call split: ICERole.splits)

lemma untouched_loop: "untouched t (snd (SetRemoteCandidates_loop env a cs t))"
proof (induction cs arbitrary: t)
  case Nil
  show ?case by simp
next
  case (Cons c cs)
  show ?case
  proof (cases "toICE env c")
    case (Inl err)
    then show ?thesis by simp
  next
    case (Inr i)
    obtain e t1 where c: "call (EvAddRemoteCandidate a (Some i))
        (agent_AddRemoteCandidate env a (Some i)) t = (e, t1)"
      by (cases "call (EvAddRemoteCandidate a (Some i)) (agent_AddRemoteCandidate env a (Some i)) t")
    have u: "untouched t t1" using c by (rule untouched_call')
    show ?thesis
    proof (cases e)
      case None
      with Inr c u Cons.IH [of t1] show ?thesis
        by (auto intro: untouched_trans)
    next
      case (Some err)
      with Inr c u show ?thesis by simp
    qed
  qed
qed

lemma untouched_SetRemoteCandidates: "untouched t (snd (SetRemoteCandidates env cs t))"
proof -
  obtain e t1 where eg: "ensureGatherer env t = (e, t1)"
    by (cases "ensureGatherer env t")
  have u: "untouched t t1" using untouched_ensureGatherer [of t env] eg by simp
  show ?thesis
    using eg u untouched_loop [of t1 env _ cs]
    by (auto simp: SetRemoteCandidates_def split: option.splits intro: untouched_trans)
qed

lemma untouched_AddRemoteCandidate: "untouched t (snd (AddRemoteCandidate env c t))"
proof -
  obtain e t1 where eg: "ensureGatherer env t = (e, t1)"
    by (cases "ensureGatherer env t")
  have u: "untouched t t1" using untouched_ensureGatherer [of t env] eg by simp
  show ?thesis
    using eg u
    by (auto simp: AddRemoteCandidate_def split: option.splits sum.splits prod.splits
        dest!: untouched_call' intro: untouched_trans)
qed

lemma untouched_setRemoteCredentials: "untouched t (snd (setRemoteCredentials env u p t))"
  by (auto simp: setRemoteCredentials_def split: option.splits prod.splits dest!: untouched_call')

lemma untouched_restart: "untouched t (snd (restart env t))"
  by (auto simp: restart_def split: option.splits prod.splits
      dest!: untouched_call' intro: untouched_trans)

lemma untouched_GetLocalParameters: "untouched t (snd (GetLocalParameters env t))"
proof -
  obtain e t1 where eg: "ensureGatherer env t = (e, t1)"
    by (cases "ensureGatherer env t")
  have u: "untouched t t1" using untouched_ensureGatherer [of t env] eg by simp
  show ?thesis
    using eg u
    by (auto simp: GetLocalParameters_def split: option.splits prod.splits
        dest!: untouched_call' intro: untouched_trans)
qed


lemma stop_fields:
  "role (snd (stop env b t)) = role t \<and> gatherer (snd (stop env b t)) = gatherer t \<and>
   conn (snd (stop env b t)) = conn t \<and> mux (snd (stop env b t)) = mux t \<and>
   ctx (snd (stop env b t)) = ctx t \<and> ctxCancel (snd (stop env b t)) = ctxCancel t \<and>
   state (snd (stop env b t)) = Some ICETransportStateClosed"
  by (simp add: stop_def call_def setState_def Let_def split: option.splits prod.splits bool.splits)

lemma Start_locked2_fields:
  "role (snd (Start_locked2 env c e t)) = role t \<and>
   state (snd (Start_locked2 env c e t)) = state t \<and>
   gatherer (snd (Start_locked2 env c e t)) = gatherer t \<and>
   ctx (snd (Start_locked2 env c e t)) = ctx t \<and>
   ctxCancel (snd (Start_locked2 env c e t)) = ctxCancel t"
  by (simp add: Start_locked2_def call_def Let_def split: option.splits prod.splits)


lemma Start_locked2_Closed:
  "State t = ICETransportStateClosed \<Longrightarrow>
   Start_locked2 env c e t =
     (Returns (Some (case e of None \<Rightarrow> errICETransportClosed | Some x \<Rightarrow> x)), t)"
  by (simp add: Start_locked2_def split: option.splits)

lemma Start_locked1_not_New:
  "State t \<noteq> ICETransportStateNew \<Longrightarrow>
   Start_locked1 env g r t = (Inl (Returns (Some errICETransportNotInNew)), t)"
  by (simp add: Start_locked1_def)

lemma ensureGatherer_cases:
  "ensureGatherer env t = (e, t') \<Longrightarrow>
   (gatherer t = None \<and> e = Some errICEGathererNotStarted \<and> t' = t) \<or>
   (\<exists>g. gatherer t = Some g \<and> gatherer t' = Some g \<and> untouched t t')"
  using untouched_ensureGatherer [of t env]
  by (auto simp: ensureGatherer_def untouched_def split: option.splits if_splits)

lemma Start_locked1_conn_mux:
  "conn (snd (Start_locked1 env g r t)) = conn t \<and> mux (snd (Start_locked1 env g r t)) = mux t"
proof (cases "State t = ICETransportStateNew")
  case False
  then show ?thesis by (simp add: Start_locked1_not_New)
next
  case True
  define t1 where "t1 = (case g of Some g' \<Rightarrow> t\<lparr>gatherer := Some g'\<rparr> | None \<Rightarrow> t)"
  have c1: "conn t1 = conn t \<and> mux t1 = mux t"
    by (simp add: t1_def split: option.splits)
  obtain e t2 where eg: "ensureGatherer env t1 = (e, t2)"
    by (cases "ensureGatherer env t1")
  have c2: "conn t2 = conn t1 \<and> mux t2 = mux t1"
    using untouched_ensureGatherer [of t1 env] eg by (simp add: untouched_def)
  show ?thesis
    using True eg c1 c2 unfolding Start_locked1_def t1_def [symmetric]
    by (auto simp: Let_def call_def split: option.splits prod.splits)
qed



lemma untouched_exec:
  "untouched t (exec env (OpStart_connect a p r) t)"
  "untouched t (exec env (OpSetRemoteCandidates cs) t)"
  "untouched t (exec env (OpAddRemoteCandidate c) t)"
  "untouched t (exec env (OpSetRemoteCredentials u pw) t)"
  "untouched t (exec env OpRestart t)"
  "untouched t (exec env OpGetLocalParameters t)"
  "untouched t (exec env (OpExternal f) t)"
  by (simp_all add: untouched_Start_connect untouched_SetRemoteCandidates
      untouched_AddRemoteCandidate untouched_setRemoteCredentials untouched_restart
      untouched_GetLocalParameters)
    (simp add: untouched_def)



subsection \<open>Evaluation and reachability\<close>

lemmas model_defs =
  Start_def Start_locked1_def Start_connect_def Start_locked2_def ensureGatherer_def
  call_def State_def setState_def NewICETransport_def stop_def Stop_def GracefulStop_def
  FlattenErrs_def SetRemoteCandidates_def AddRemoteCandidate_def setRemoteCredentials_def
  restart_def GetLocalParameters_def Role_def

lemmas double_defs =
  double_env_def double0_def fresh_def uf1_def failing_close_env_def picky_env_def
  failing_closes_env_def

lemma started_eq:
  "started =
     \<lparr>role = ICERoleControlling, state = Some ICETransportStateNew, gatherer = Some 0,
      conn = Some 3, mux = Some 1, ctx = Some 0, ctxCancel = Some 0,
      ext = \<lparr>d_agent = Some 7, d_cancelled = [], d_fresh = 2\<rparr>,
      trace = [EvCreateAgent 0, EvOnConnectionStateChange 7, EvOnSelectedCandidatePairChange 7,
               EvWithCancel, EvDial 7 (Some 0) ''uf1'' ''pw1'',
               EvNewMux \<lparr>Conn = Some 3, BufferSize = 8192\<rparr>]\<rparr>"
  by (simp add: started_def model_defs double_defs)



subsection \<open>The parts of Start\<close>

lemma call_eq:
  "call ev f t = (fst (f (ext t)), t\<lparr>ext := snd (f (ext t)), trace := trace t @ [ev]\<rparr>)"
  by (simp add: call_def split: prod.splits)

lemma Start_locked2_err: "Start_locked2 env c (Some e) t = (Returns (Some e), t)"
  by (simp add: Start_locked2_def)

lemma Start_locked1_nil_role:
  "Start_locked1 env g None t = Start_locked1 env g (Some ICERoleControlled) t"
  by (simp add: Start_locked1_def cong: option.case_cong prod.case_cong if_cong)

lemma Start_locked1_passes:
  assumes "Start_locked1 env g role' t = (Inr (a, r), t1)"
  shows "r = (case role' of None \<Rightarrow> ICERoleControlled | Some x \<Rightarrow> x) \<and> role t1 = r \<and>
         State t = ICETransportStateNew"
  using assms
  by (auto simp: Start_locked1_def call_def Let_def split: if_splits option.splits prod.splits)

lemma Start_after_locked1:
  assumes "Start_locked1 env g role' t = (Inr (a, r), t1)"
  shows "Start env before after g params role' t =
           (case Start_connect env a params r (run env before t1) of
              ((iceConn, err), t3) \<Rightarrow> Start_locked2 env iceConn err (run env after t3))"
  using assms by (simp add: Start_def)

lemma role_exec: "\<not> stores_role x \<Longrightarrow> role (exec env x t) = role t"
proof (cases x)
  case (OpStart_locked2 c e)
  then show ?thesis using Start_locked2_fields [of env c e t] by simp
next
  case (OpStop b)
  then show ?thesis using stop_fields [of env b t] by simp
next
  case (OpOnConnectionStateChange s)
  then show ?thesis by (simp add: setState_def)
qed (use untouched_exec [of t env] in \<open>simp_all add: untouched_def\<close>)

lemma role_run: "\<forall>x \<in> set xs. \<not> stores_role x \<Longrightarrow> role (run env xs t) = role t"
  by (induction xs arbitrary: t) (simp_all add: role_exec)

subsection \<open>The call log only grows\<close>

lemma extends_refl [simp]: "extends t t"
  by (simp add: extends_def)

lemma extends_trans: "extends t t' \<Longrightarrow> extends t' t'' \<Longrightarrow> extends t t''"
  by (auto simp: extends_def)

lemma extends_call: "extends t (snd (call ev f t))"
  by (simp add: extends_def call_eq)

lemma extends_call': "call ev f t = (r, t') \<Longrightarrow> extends t t'"
  using extends_call [of t ev f] by simp

lemma extends_ensureGatherer: "extends t (snd (ensureGatherer env t))"
  by (simp add: ensureGatherer_def extends_call split: option.splits)

lemma extends_ensureGatherer': "ensureGatherer env t = (r, t') \<Longrightarrow> extends t t'"
  using extends_ensureGatherer [of t env] by simp

lemma extends_Start_connect: "extends t (snd (Start_connect env a p r t))"
  by (simp add: Start_connect_def extends_call split: ICERole.splits)

lemma extends_Start_locked2: "extends t (snd (Start_locked2 env c e t))"
  by (simp add: Start_locked2_def call_eq extends_def Let_def split: option.splits)

lemma extends_Start_locked1: "extends t (snd (Start_locked1 env g r t))"
proof (cases "State t = ICETransportStateNew")
  case False
  then show ?thesis by (simp add: Start_locked1_not_New)
next
  case True
  define t1 where "t1 = (case g of Some g' \<Rightarrow> t\<lparr>gatherer := Some g'\<rparr> | None \<Rightarrow> t)"
  have c1: "trace t1 = trace t"
    by (simp add: t1_def split: option.splits)
  obtain e t2 where eg: "ensureGatherer env t1 = (e, t2)"
    by (cases "ensureGatherer env t1")
  have c2: "prefix (trace t) (trace t2)"
    using extends_ensureGatherer' [OF eg] c1 by (simp add: extends_def)
  show ?thesis
    using True eg c2 unfolding Start_locked1_def t1_def [symmetric] extends_def
    by (auto simp: Let_def call_eq case_prod_beta split: option.splits intro: prefix_order.trans)
qed

lemma extends_stop: "extends t (snd (stop env b t))"
  by (simp add: stop_def call_eq setState_def Let_def extends_def case_prod_beta
      split: option.splits bool.splits)

lemma extends_loop: "extends t (snd (SetRemoteCandidates_loop env a cs t))"
proof (induction cs arbitrary: t)
  case Nil
  show ?case by simp
next
  case (Cons c cs)
  show ?case
  proof (cases "toICE env c")
    case (Inl err)
    then show ?thesis by simp
  next
    case (Inr i)
    obtain e t1 where c: "call (EvAddRemoteCandidate a (Some i))
        (agent_AddRemoteCandidate env a (Some i)) t = (e, t1)"
      by (cases "call (EvAddRemoteCandidate a (Some i)) (agent_AddRemoteCandidate env a (Some i)) t")
    have u: "extends t t1" using c by (rule extends_call')
    show ?thesis
    proof (cases e)
      case None
      with Inr c u Cons.IH [of t1] show ?thesis
        by (auto intro: extends_trans)
    next
      case (Some err)
      with Inr c u show ?thesis by simp
    qed
  qed
qed

lemma extends_SetRemoteCandidates: "extends t (snd (SetRemoteCandidates env cs t))"
proof -
  obtain e t1 where eg: "ensureGatherer env t = (e, t1)"
    by (cases "ensureGatherer env t")
  have u: "extends t t1" using eg by (rule extends_ensureGatherer')
  show ?thesis
    using eg u extends_loop [of t1 env _ cs]
    by (auto simp: SetRemoteCandidates_def split: option.splits intro: extends_trans)
qed

lemma extends_AddRemoteCandidate: "extends t (snd (AddRemoteCandidate env c t))"
proof -
  obtain e t1 where eg: "ensureGatherer env t = (e, t1)"
    by (cases "ensureGatherer env t")
  have u: "extends t t1" using eg by (rule extends_ensureGatherer')
  show ?thesis
    using eg u
    by (auto simp: AddRemoteCandidate_def split: option.splits sum.splits prod.splits
        dest!: extends_call' intro: extends_trans)
qed

lemma extends_setRemoteCredentials: "extends t (snd (setRemoteCredentials env u p t))"
  by (auto simp: setRemoteCredentials_def split: option.splits prod.splits dest!: extends_call')

lemma extends_restart: "extends t (snd (restart env t))"
  by (auto simp: restart_def split: option.splits prod.splits
      dest!: extends_call' intro: extends_trans)

lemma extends_GetLocalParameters: "extends t (snd (GetLocalParameters env t))"
proof -
  obtain e t1 where eg: "ensureGatherer env t = (e, t1)"
    by (cases "ensureGatherer env t")
  have u: "extends t t1" using eg by (rule extends_ensureGatherer')
  show ?thesis
    using eg u
    by (auto simp: GetLocalParameters_def split: option.splits prod.splits
        dest!: extends_call' intro: extends_trans)
qed

lemma extends_exec: "extends t (exec env x t)"
  by (cases x)
    (simp_all add: extends_Start_locked1 extends_Start_connect extends_Start_locked2 extends_stop
      extends_SetRemoteCandidates extends_AddRemoteCandidate extends_setRemoteCredentials
      extends_restart extends_GetLocalParameters, simp_all add: extends_def setState_def)

lemma extends_run: "extends t (run env xs t)"
proof (induction xs arbitrary: t)
  case Nil
  show ?case by simp
next
  case (Cons x xs)
  show ?case
    using extends_exec [of t env x] Cons.IH [of "exec env x t"]
    by (auto intro: extends_trans)
qed

lemma logged_kept: "extends t t' \<Longrightarrow> ev \<in> set (trace t) \<Longrightarrow> ev \<in> set (trace t')"
  by (auto simp: extends_def dest: set_mono_prefix)

lemma logged_Start_locked2_run:
  "ev \<in> set (trace t) \<Longrightarrow> ev \<in> set (trace (snd (Start_locked2 env c e (run env xs t))))"
  using extends_trans [OF extends_run extends_Start_locked2] by (rule logged_kept)

subsection \<open>Start outside the state New\<close>

text \<open>
  C2: for every transport whose current state is not New, \<^verbatim>\<open>Start\<close> returns
  \<^verbatim>\<open>errICETransportNotInNew\<close> and leaves the transport as it was: the role, the gatherer,
  the connection, the multiplexer and the state, and also the collaborators and the call
  log, whatever the arguments and whatever other threads would have done.
\<close>

theorem Start_not_New:
  "State t \<noteq> ICETransportStateNew \<Longrightarrow>
   Start env before after gatherer' params role' t = (Returns (Some errICETransportNotInNew), t)"
  by (simp add: Start_def Start_locked1_def)

text \<open>The transport that a state callback moved to Connected refuses a second \<^verbatim>\<open>Start\<close>.\<close>

theorem Start_not_New_witness:
  "State (setState ICETransportStateConnected started) \<noteq> ICETransportStateNew \<and>
   Start double_env [] [] None uf1 (Some ICERoleControlled)
         (setState ICETransportStateConnected started)
     = (Returns (Some errICETransportNotInNew), setState ICETransportStateConnected started)"
  using Start_not_New [of "setState ICETransportStateConnected started"
      double_env "[]" "[]" None uf1 "Some ICERoleControlled"]
  by (simp add: State_def setState_def)

subsection \<open>The role\<close>

text \<open>
  C3: for every \<^verbatim>\<open>Start\<close> that passes its checks (the first part hands over the agent),
  whatever other threads do before and after the connection attempt: with the role
  Controlling the agent's \<^verbatim>\<open>Dial\<close> is called with the username fragment and the password
  of the parameters, and \<^verbatim>\<open>Start\<close> finishes with what it returns; with the role
  Controlled the same holds of \<^verbatim>\<open>Accept\<close>; with any other role \<^verbatim>\<open>Start\<close> returns
  \<^verbatim>\<open>errICERoleUnknown\<close> and the call makes no dial and no accept: the transport it leaves
  is the one the other threads left. The dial, or the accept, stays in the call log of
  the transport that \<^verbatim>\<open>Start\<close> leaves.
\<close>

theorem Start_role_dispatch:
  assumes "Start_locked1 env g role' t = (Inr (a, r), t1)"
  shows "let t2 = run env before t1; uf = UsernameFragment params; pw = Password params in
     (role' = Some ICERoleControlling \<longrightarrow>
        (let res = agent_Dial env a (ctx t2) uf pw (ext t2) in
         Start env before after g params role' t =
           Start_locked2 env (fst (fst res)) (snd (fst res))
             (run env after (t2\<lparr>ext := snd res, trace := trace t2 @ [EvDial a (ctx t2) uf pw]\<rparr>))) \<and>
        EvDial a (ctx t2) uf pw \<in> set (trace (snd (Start env before after g params role' t)))) \<and>
     (role' = Some ICERoleControlled \<longrightarrow>
        (let res = agent_Accept env a (ctx t2) uf pw (ext t2) in
         Start env before after g params role' t =
           Start_locked2 env (fst (fst res)) (snd (fst res))
             (run env after (t2\<lparr>ext := snd res, trace := trace t2 @ [EvAccept a (ctx t2) uf pw]\<rparr>))) \<and>
        EvAccept a (ctx t2) uf pw \<in> set (trace (snd (Start env before after g params role' t)))) \<and>
     (role' = Some (ICERoleOther k) \<longrightarrow>
        Start env before after g params role' t =
          (Returns (Some errICERoleUnknown), run env after t2))"
proof -
  have r: "r = (case role' of None \<Rightarrow> ICERoleControlled | Some x \<Rightarrow> x)"
    using Start_locked1_passes [OF assms] by simp
  show ?thesis
    unfolding Start_after_locked1 [OF assms] r
    by (simp add: Let_def Start_connect_def call_eq case_prod_beta Start_locked2_err
        logged_Start_locked2_run)
qed

text \<open>The three roles on the fresh transport, with the calls logged.\<close>

theorem Start_role_dispatch_witness:
  "trace (snd (Start double_env [] [] None uf1 (Some ICERoleControlling) fresh)) =
     [EvCreateAgent 0, EvOnConnectionStateChange 7, EvOnSelectedCandidatePairChange 7,
      EvWithCancel, EvDial 7 (Some 0) ''uf1'' ''pw1'',
      EvNewMux \<lparr>Conn = Some 3, BufferSize = 8192\<rparr>] \<and>
   trace (snd (Start double_env [] [] None uf1 (Some ICERoleControlled) fresh)) =
     [EvCreateAgent 0, EvOnConnectionStateChange 7, EvOnSelectedCandidatePairChange 7,
      EvWithCancel, EvAccept 7 (Some 0) ''uf1'' ''pw1'',
      EvNewMux \<lparr>Conn = Some 4, BufferSize = 8192\<rparr>] \<and>
   Start double_env [] [] None uf1 (Some (ICERoleOther 0)) fresh =
     (Returns (Some errICERoleUnknown),
      snd (Start_locked1 double_env None (Some (ICERoleOther 0)) fresh)) \<and>
   trace (snd (Start double_env [] [] None uf1 (Some (ICERoleOther 0)) fresh)) =
     [EvCreateAgent 0, EvOnConnectionStateChange 7, EvOnSelectedCandidatePairChange 7,
      EvWithCancel]"
proof -
  have h1: "Start_locked1 double_env None (Some ICERoleControlling) fresh
              = (Inr (7, ICERoleControlling),
                 snd (Start_locked1 double_env None (Some ICERoleControlling) fresh))"
    by (simp add: model_defs double_defs Let_def)
  have h2: "Start_locked1 double_env None (Some ICERoleControlled) fresh
              = (Inr (7, ICERoleControlled),
                 snd (Start_locked1 double_env None (Some ICERoleControlled) fresh))"
    by (simp add: model_defs double_defs Let_def)
  have h3: "Start_locked1 double_env None (Some (ICERoleOther 0)) fresh
              = (Inr (7, ICERoleOther 0),
                 snd (Start_locked1 double_env None (Some (ICERoleOther 0)) fresh))"
    by (simp add: model_defs double_defs Let_def)
  from Start_role_dispatch [OF h1, of "[]" uf1 "[]" 0]
       Start_role_dispatch [OF h2, of "[]" uf1 "[]" 0]
       Start_role_dispatch [OF h3, of "[]" uf1 "[]" 0]
  show ?thesis
    by (simp add: Let_def) (simp add: model_defs double_defs Let_def)
qed

text \<open>
  C9: a \<^verbatim>\<open>Start\<close> whose role argument is nil behaves in every respect as the \<^verbatim>\<open>Start\<close>
  with the role Controlled; when it passes its checks the role stored is Controlled and
  the agent's \<^verbatim>\<open>Accept\<close> is called.
\<close>

theorem Start_nil_role:
  "Start env before after g params None t =
     Start env before after g params (Some ICERoleControlled) t \<and>
   (Start_locked1 env g None t = (Inr (a, r), t1) \<longrightarrow>
      r = ICERoleControlled \<and> role t1 = ICERoleControlled \<and>
      (let t2 = run env before t1; uf = UsernameFragment params; pw = Password params;
           res = agent_Accept env a (ctx t2) uf pw (ext t2)
       in Start env before after g params None t =
            Start_locked2 env (fst (fst res)) (snd (fst res))
              (run env after (t2\<lparr>ext := snd res, trace := trace t2 @ [EvAccept a (ctx t2) uf pw]\<rparr>)) \<and>
          EvAccept a (ctx t2) uf pw \<in> set (trace (snd (Start env before after g params None t)))))"
proof (intro conjI impI)
  show "Start env before after g params None t =
     Start env before after g params (Some ICERoleControlled) t"
    by (simp add: Start_def Start_locked1_nil_role)
next
  assume h: "Start_locked1 env g None t = (Inr (a, r), t1)"
  from Start_locked1_passes [OF h] show "r = ICERoleControlled" by simp
  from Start_locked1_passes [OF h] show "role t1 = ICERoleControlled" by simp
  have r: "r = ICERoleControlled"
    using Start_locked1_passes [OF h] by simp
  show "let t2 = run env before t1; uf = UsernameFragment params; pw = Password params;
           res = agent_Accept env a (ctx t2) uf pw (ext t2)
       in Start env before after g params None t =
            Start_locked2 env (fst (fst res)) (snd (fst res))
              (run env after (t2\<lparr>ext := snd res, trace := trace t2 @ [EvAccept a (ctx t2) uf pw]\<rparr>)) \<and>
          EvAccept a (ctx t2) uf pw \<in> set (trace (snd (Start env before after g params None t)))"
    unfolding Start_after_locked1 [OF h] r
    by (simp add: Let_def Start_connect_def call_eq case_prod_beta logged_Start_locked2_run)
qed

text \<open>On the fresh transport.\<close>

theorem Start_nil_role_witness:
  "Start_locked1 double_env None None fresh =
     (Inr (7, ICERoleControlled), snd (Start_locked1 double_env None None fresh)) \<and>
   fst (Start double_env [] [] None uf1 None fresh) = Returns None \<and>
   Role (snd (Start double_env [] [] None uf1 None fresh)) = ICERoleControlled \<and>
   trace (snd (Start double_env [] [] None uf1 None fresh)) =
     [EvCreateAgent 0, EvOnConnectionStateChange 7, EvOnSelectedCandidatePairChange 7,
      EvWithCancel, EvAccept 7 (Some 0) ''uf1'' ''pw1'',
      EvNewMux \<lparr>Conn = Some 4, BufferSize = 8192\<rparr>]"
proof -
  have h: "Start_locked1 double_env None None fresh =
     (Inr (7, ICERoleControlled), snd (Start_locked1 double_env None None fresh))"
    by (simp add: model_defs double_defs Let_def)
  from Start_nil_role [of double_env "[]" "[]" None uf1 fresh 7 ICERoleControlled
      "snd (Start_locked1 double_env None None fresh)"] h
  show ?thesis
    by (simp add: Let_def) (simp add: model_defs double_defs Let_def)
qed

text \<open>
  C10: if \<^verbatim>\<open>Start\<close> passes its checks and the dial or accept then returns an error (the
  unknown role included), \<^verbatim>\<open>Start\<close> returns that error, and \<^verbatim>\<open>Role\<close> afterwards returns
  the role that was passed (Controlled for nil), provided no other \<^verbatim>\<open>Start\<close> stored a role
  in between.
\<close>

theorem Start_failed_role:
  assumes "Start_locked1 env g role' t = (Inr (a, r), t1)"
    and "Start_connect env a params r (run env before t1) = ((iceConn, Some e), t3)"
    and "\<forall>x \<in> set (before @ after). \<not> stores_role x"
  shows "fst (Start env before after g params role' t) = Returns (Some e) \<and>
         Role (snd (Start env before after g params role' t)) =
           (case role' of None \<Rightarrow> ICERoleControlled | Some x \<Rightarrow> x)"
proof -
  have s: "Start env before after g params role' t = (Returns (Some e), run env after t3)"
    using assms(1,2) by (simp add: Start_after_locked1 Start_locked2_err)
  have "role t3 = role (run env before t1)"
    using untouched_Start_connect [of "run env before t1" env a params r] assms(2)
    by (simp add: untouched_def)
  also have "\<dots> = role t1"
    using assms(3) by (simp add: role_run)
  finally have "role (run env after t3) = role t1"
    using assms(3) by (simp add: role_run)
  with s Start_locked1_passes [OF assms(1)] show ?thesis
    by (simp add: Role_def)
qed

text \<open>
  A \<^verbatim>\<open>Stop\<close> cancels the dial of a \<^verbatim>\<open>Start\<close> as controlling side: the role was
  \<open>ICERoleOther 0\<close> before and is Controlling after the failure.
\<close>

theorem Start_failed_role_witness:
  "Role fresh = ICERoleOther 0 \<and>
   Start_locked1 double_env None (Some ICERoleControlling) fresh =
     (Inr (7, ICERoleControlling),
      snd (Start_locked1 double_env None (Some ICERoleControlling) fresh)) \<and>
   \<not> stores_role (OpStop False :: double op) \<and>
   fst (Start double_env [OpStop False] [] None uf1 (Some ICERoleControlling) fresh)
     = Returns (Some (External ''context canceled'')) \<and>
   Role (snd (Start double_env [OpStop False] [] None uf1 (Some ICERoleControlling) fresh))
     = ICERoleControlling"
proof -
  define t1 where "t1 = snd (Start_locked1 double_env None (Some ICERoleControlling) fresh)"
  define t3 where
    "t3 = snd (Start_connect double_env 7 uf1 ICERoleControlling (run double_env [OpStop False] t1))"
  have h1: "Start_locked1 double_env None (Some ICERoleControlling) fresh
              = (Inr (7, ICERoleControlling), t1)"
    by (simp add: t1_def model_defs double_defs Let_def)
  have h2: "Start_connect double_env 7 uf1 ICERoleControlling (run double_env [OpStop False] t1)
              = ((None, Some (External ''context canceled'')), t3)"
    by (simp add: t3_def t1_def model_defs double_defs Let_def)
  have h3: "\<forall>x \<in> set ([OpStop False] @ []). \<not> stores_role (x :: double op)"
    by simp
  have r0: "Role fresh = ICERoleOther 0"
    by (simp add: model_defs double_defs)
  from Start_failed_role [OF h1 h2 h3] h1 r0 show ?thesis
    unfolding t1_def by simp
qed

subsection \<open>Start against a concurrent Stop\<close>

text \<open>
  When the state is Closed at the moment \<^verbatim>\<open>Start\<close> takes the lock again, \<^verbatim>\<open>Start\<close>
  returns the error of the dial or accept if there is one and \<^verbatim>\<open>errICETransportClosed\<close>
  otherwise, and leaves the transport as it found it: the connection is not stored and
  no multiplexer is built. And no step taken in a transport whose state is Closed
  changes the connection or the multiplexer field.
\<close>

lemma Start_while_Closed:
  "(Start_locked1 env g role' t = (Inr (a, r), t1) \<and>
    Start_connect env a params r (run env before t1) = ((iceConn, err), t3) \<and>
    State (run env after t3) = ICETransportStateClosed \<longrightarrow>
      Start env before after g params role' t =
        (Returns (Some (case err of None \<Rightarrow> errICETransportClosed | Some e \<Rightarrow> e)),
         run env after t3)) \<and>
   (State u = ICETransportStateClosed \<longrightarrow>
      conn (exec env x u) = conn u \<and> mux (exec env x u) = mux u)"
proof (intro conjI impI)
  assume h: "Start_locked1 env g role' t = (Inr (a, r), t1) \<and>
    Start_connect env a params r (run env before t1) = ((iceConn, err), t3) \<and>
    State (run env after t3) = ICETransportStateClosed"
  then show "Start env before after g params role' t =
        (Returns (Some (case err of None \<Rightarrow> errICETransportClosed | Some e \<Rightarrow> e)),
         run env after t3)"
    by (simp add: Start_after_locked1 Start_locked2_Closed)
next
  assume c: "State u = ICETransportStateClosed"
  show "conn (exec env x u) = conn u"
  proof (cases x)
    case (OpStart_locked1 g r)
    then show ?thesis using Start_locked1_conn_mux [of env g r u] by simp
  next
    case (OpStart_locked2 c' e)
    then show ?thesis using c by (simp add: Start_locked2_Closed)
  next
    case (OpStop b)
    then show ?thesis using stop_fields [of env b u] by simp
  next
    case (OpOnConnectionStateChange s)
    then show ?thesis by (simp add: setState_def)
  qed (use untouched_exec [of u env] in \<open>simp_all add: untouched_def\<close>)
  show "mux (exec env x u) = mux u"
  proof (cases x)
    case (OpStart_locked1 g r)
    then show ?thesis using Start_locked1_conn_mux [of env g r u] by simp
  next
    case (OpStart_locked2 c' e)
    then show ?thesis using c by (simp add: Start_locked2_Closed)
  next
    case (OpStop b)
    then show ?thesis using stop_fields [of env b u] by simp
  next
    case (OpOnConnectionStateChange s)
    then show ?thesis by (simp add: setState_def)
  qed (use untouched_exec [of u env] in \<open>simp_all add: untouched_def\<close>)
qed

text \<open>
  C1: once the state is Closed, the connection and the multiplexer are never assigned
  again, and a \<^verbatim>\<open>Start\<close> that finds the state Closed when it takes the lock again
  returns \<^verbatim>\<open>errICETransportClosed\<close> without storing the connection it obtained. The
  code does not keep the first half. The callback that \<^verbatim>\<open>Start\<close> registers with the agent
  stores every state the agent reports, also over Closed. In the run below the dial of
  a \<^verbatim>\<open>Start\<close> has succeeded; before \<^verbatim>\<open>Start\<close> takes the lock again a \<^verbatim>\<open>Stop\<close> stores
  Closed, finds no multiplexer and closes the gatherer, and the callback then reports
  Connected. \<^verbatim>\<open>Start\<close> passes its test for Closed, stores the connection, builds the
  multiplexer and returns no error; no call closes that multiplexer.
\<close>

theorem Start_publishes_after_Closed:
  "State (run double_env [OpStop False]
            (snd (Start_connect double_env 7 uf1 ICERoleControlling
                    (snd (Start_locked1 double_env None (Some ICERoleControlling) fresh)))))
     = ICETransportStateClosed \<and>
   conn (run double_env [OpStop False]
            (snd (Start_connect double_env 7 uf1 ICERoleControlling
                    (snd (Start_locked1 double_env None (Some ICERoleControlling) fresh)))))
     = None \<and>
   mux (run double_env [OpStop False]
            (snd (Start_connect double_env 7 uf1 ICERoleControlling
                    (snd (Start_locked1 double_env None (Some ICERoleControlling) fresh)))))
     = None \<and>
   fst (Start double_env [] [OpStop False, OpOnConnectionStateChange ICETransportStateConnected]
          None uf1 (Some ICERoleControlling) fresh) = Returns None \<and>
   conn (snd (Start double_env [] [OpStop False, OpOnConnectionStateChange ICETransportStateConnected]
          None uf1 (Some ICERoleControlling) fresh)) = Some 3 \<and>
   mux (snd (Start double_env [] [OpStop False, OpOnConnectionStateChange ICETransportStateConnected]
          None uf1 (Some ICERoleControlling) fresh)) = Some 1 \<and>
   trace (snd (Start double_env [] [OpStop False, OpOnConnectionStateChange ICETransportStateConnected]
          None uf1 (Some ICERoleControlling) fresh)) =
     [EvCreateAgent 0, EvOnConnectionStateChange 7, EvOnSelectedCandidatePairChange 7,
      EvWithCancel, EvDial 7 (Some 0) ''uf1'' ''pw1'', EvCancel 0, EvGathererClose 0,
      EvNewMux \<lparr>Conn = Some 3, BufferSize = 8192\<rparr>]"
  by (simp add: model_defs double_defs Let_def)

subsection \<open>Stop\<close>

text \<open>
  C4: for every transport, the immediate \<^verbatim>\<open>Stop\<close> stores the state Closed and makes
  these calls, in this order, each on the state of the collaborators that the one before
  left: the cancel function if one is stored; then the close of the multiplexer if there
  is one, and the close of the gatherer only when there is no multiplexer (and a
  gatherer). It returns the error of that close, leaves the collaborators as the close
  left them, and changes no other field.
\<close>

theorem Stop_immediate:
  "Stop env t =
     (let x0 = (case ctxCancel t of None \<Rightarrow> ext t | Some c \<Rightarrow> snd (context_cancel env c (ext t)));
          r = (case mux t of
                 Some m \<Rightarrow> (FlattenErrs [fst (mux_Close env m x0)], snd (mux_Close env m x0))
               | None \<Rightarrow>
                   (case gatherer t of
                      Some g \<Rightarrow> gatherer_Close env g x0
                    | None \<Rightarrow> (None, x0)))
      in (Returns (fst r),
          t\<lparr>state := Some ICETransportStateClosed,
            ext := snd r,
            trace := trace t
              @ (case ctxCancel t of None \<Rightarrow> [] | Some c \<Rightarrow> [EvCancel c])
              @ (case mux t of
                   Some m \<Rightarrow> [EvMuxClose m]
                 | None \<Rightarrow> (case gatherer t of None \<Rightarrow> [] | Some g \<Rightarrow> [EvGathererClose g]))\<rparr>)) \<and>
   State (snd (Stop env t)) = ICETransportStateClosed"
  by (simp add: Stop_def stop_def call_eq setState_def State_def Let_def case_prod_beta
      split: option.splits)

text \<open>
  On the started transport (the context is cancelled, the multiplexer closed), and on
  the fresh one with a gatherer whose \<^verbatim>\<open>Close\<close> fails and with one whose \<^verbatim>\<open>Close\<close>
  succeeds.
\<close>

theorem Stop_immediate_witness:
  "Stop double_env started =
     (Returns None,
      started\<lparr>state := Some ICETransportStateClosed,
        ext := \<lparr>d_agent = Some 7, d_cancelled = [0], d_fresh = 2\<rparr>,
        trace := trace started @ [EvCancel 0, EvMuxClose 1]\<rparr>) \<and>
   Stop failing_close_env fresh =
     (Returns (Some (External ''close failed'')),
      fresh\<lparr>state := Some ICETransportStateClosed,
        trace := trace fresh @ [EvGathererClose 0]\<rparr>) \<and>
   Stop double_env fresh =
     (Returns None,
      fresh\<lparr>state := Some ICETransportStateClosed,
        ext := \<lparr>d_agent = None, d_cancelled = [], d_fresh = 0\<rparr>,
        trace := trace fresh @ [EvGathererClose 0]\<rparr>)"
  using Stop_immediate [of double_env started] Stop_immediate [of failing_close_env fresh]
    Stop_immediate [of double_env fresh]
  by (simp add: started_eq) (simp add: model_defs double_defs)



text \<open>
  C6: for every transport, neither a first nor a second \<^verbatim>\<open>Stop\<close> panics, whether or not
  there is a connection, a multiplexer or a gatherer, and the state is Closed afterwards.
  \<^verbatim>\<open>Stop\<close> keeps the multiplexer and the gatherer fields, so the second call closes what
  the first closed, and each call returns the error of the close it performs. With
  collaborators whose closes return no error, both calls return no error.
\<close>

theorem Stop_twice:
  "fst (Stop env t) \<noteq> Panics \<and> fst (Stop env (snd (Stop env t))) \<noteq> Panics \<and>
   State (snd (Stop env (snd (Stop env t)))) = ICETransportStateClosed \<and>
   mux (snd (Stop env t)) = mux t \<and> gatherer (snd (Stop env t)) = gatherer t \<and>
   fst (Stop env t) =
     Returns
       (let x0 = (case ctxCancel t of None \<Rightarrow> ext t | Some c \<Rightarrow> snd (context_cancel env c (ext t)))
        in case mux t of
             Some m \<Rightarrow> FlattenErrs [fst (mux_Close env m x0)]
           | None \<Rightarrow> (case gatherer t of None \<Rightarrow> None | Some g \<Rightarrow> fst (gatherer_Close env g x0))) \<and>
   ((\<forall>m e. fst (mux_Close env m e) = None) \<and> (\<forall>g e. fst (gatherer_Close env g e) = None) \<longrightarrow>
      fst (Stop env t) = Returns None \<and> fst (Stop env (snd (Stop env t))) = Returns None)"
proof -
  have a: "fst (stop env False u) \<noteq> Panics" for u
    by (simp add: stop_def call_def Let_def split: option.splits prod.splits)
  have b: "fst (stop env False u) = Returns None"
    if "\<forall>m e. fst (mux_Close env m e) = None" "\<forall>g e. fst (gatherer_Close env g e) = None" for u
  proof -
    have m: "mux_Close env m e = (x, e') \<Longrightarrow> x = None" for m e x e'
      using that(1) by (metis fst_conv)
    have g: "gatherer_Close env g e = (x, e') \<Longrightarrow> x = None" for g e x e'
      using that(2) by (metis fst_conv)
    show ?thesis
      by (auto simp: stop_def call_def Let_def FlattenErrs_def split: option.splits prod.splits
          dest: m g)
  qed
  have c: "State (snd (stop env False u)) = ICETransportStateClosed" for u
    using stop_fields [of env False u] by (simp add: State_def)
  have d: "mux (snd (stop env False t)) = mux t \<and> gatherer (snd (stop env False t)) = gatherer t"
    using stop_fields [of env False t] by simp
  have e: "fst (stop env False t) =
     Returns
       (let x0 = (case ctxCancel t of None \<Rightarrow> ext t | Some c \<Rightarrow> snd (context_cancel env c (ext t)))
        in case mux t of
             Some m \<Rightarrow> FlattenErrs [fst (mux_Close env m x0)]
           | None \<Rightarrow> (case gatherer t of None \<Rightarrow> None | Some g \<Rightarrow> fst (gatherer_Close env g x0)))"
    by (simp add: stop_def call_eq setState_def Let_def case_prod_beta split: option.splits)
  show ?thesis
    unfolding Stop_def using a b c d e by blast
qed

text \<open>
  With the double, whose closes succeed: on the started transport, and on the fresh one,
  which has no connection and no multiplexer.
\<close>

theorem Stop_twice_witness:
  "(\<forall>m e. fst (mux_Close double_env m e) = None) \<and>
   (\<forall>g e. fst (gatherer_Close double_env g e) = None) \<and>
   fst (Stop double_env started) = Returns None \<and>
   fst (Stop double_env (snd (Stop double_env started))) = Returns None \<and>
   fst (Stop double_env fresh) = Returns None \<and>
   fst (Stop double_env (snd (Stop double_env fresh))) = Returns None"
proof -
  have h: "(\<forall>m e. fst (mux_Close double_env m e) = None) \<and>
           (\<forall>g e. fst (gatherer_Close double_env g e) = None)"
    by (simp add: double_env_def)
  with Stop_twice [of double_env started] Stop_twice [of double_env fresh] show ?thesis
    by blast
qed

subsection \<open>Remote candidates and credentials\<close>

lemma trace_applied:
  "trace (applied env a is t) = trace t @ map (\<lambda>i. EvAddRemoteCandidate a (Some i)) is"
  by (induction "is" arbitrary: t) (simp_all add: call_eq)

lemma applied_snoc:
  "applied env a (is @ [i]) t =
     snd (call (EvAddRemoteCandidate a (Some i)) (agent_AddRemoteCandidate env a (Some i))
            (applied env a is t))"
  by (induction "is" arbitrary: t) simp_all

lemma loop_cases:
  "SetRemoteCandidates_loop env a cs t = (out, t') \<Longrightarrow>
     (out = Returns None \<and>
      (\<exists>is. map (toICE env) cs = map Inr is \<and> added_ok env a is (ext t) \<and>
            t' = applied env a is t)) \<or>
     (\<exists>pre c post is e.
        cs = pre @ c # post \<and> map (toICE env) pre = map Inr is \<and> added_ok env a is (ext t) \<and>
        out = Returns (Some e) \<and> fails_at env a c is e t t')"
proof (induction cs arbitrary: t)
  case Nil
  then show ?case by simp
next
  case (Cons c cs)
  show ?case
  proof (cases "toICE env c")
    case (Inl err)
    with Cons.prems have "out = Returns (Some err)" and "t' = t" by simp_all
    with Inl have "c # cs = [] @ c # cs \<and> map (toICE env) [] = map Inr [] \<and>
        added_ok env a [] (ext t) \<and> out = Returns (Some err) \<and> fails_at env a c [] err t t'"
      by (simp add: fails_at_def)
    then show ?thesis by blast
  next
    case (Inr i)
    define t1 where "t1 = snd (call (EvAddRemoteCandidate a (Some i))
                                    (agent_AddRemoteCandidate env a (Some i)) t)"
    define r where "r = fst (agent_AddRemoteCandidate env a (Some i) (ext t))"
    have c: "call (EvAddRemoteCandidate a (Some i)) (agent_AddRemoteCandidate env a (Some i)) t
               = (r, t1)"
      by (simp add: t1_def r_def call_eq)
    have x1: "ext t1 = snd (agent_AddRemoteCandidate env a (Some i) (ext t))"
      by (simp add: t1_def call_eq)
    show ?thesis
    proof (cases r)
      case (Some err)
      with Cons.prems Inr c have "out = Returns (Some err)" and "t' = t1" by simp_all
      with Inr Some have "c # cs = [] @ c # cs \<and> map (toICE env) [] = map Inr [] \<and>
          added_ok env a [] (ext t) \<and> out = Returns (Some err) \<and> fails_at env a c [] err t t'"
        by (simp add: fails_at_def r_def t1_def)
      then show ?thesis by blast
    next
      case None
      with Cons.prems Inr c have rest: "SetRemoteCandidates_loop env a cs t1 = (out, t')"
        by simp
      have ok: "added_ok env a (i # js) (ext t) = added_ok env a js (ext t1)" for js
        using None by (simp add: r_def x1)
      from Cons.IH [OF rest] show ?thesis
      proof (elim disjE conjE exE)
        fix js
        assume "out = Returns None" "map (toICE env) cs = map Inr js"
          "added_ok env a js (ext t1)" "t' = applied env a js t1"
        with Inr ok have "out = Returns None \<and> map (toICE env) (c # cs) = map Inr (i # js) \<and>
            added_ok env a (i # js) (ext t) \<and> t' = applied env a (i # js) t"
          by (simp add: t1_def)
        then show ?thesis by blast
      next
        fix pre d post js e
        assume h: "cs = pre @ d # post" "map (toICE env) pre = map Inr js"
          "added_ok env a js (ext t1)"
          "out = Returns (Some e)" "fails_at env a d js e t1 t'"
        have f: "fails_at env a d (i # js) e t t'"
          using h(5) by (simp add: fails_at_def t1_def split: sum.splits)
        have "c # cs = (c # pre) @ d # post \<and> map (toICE env) (c # pre) = map Inr (i # js) \<and>
            added_ok env a (i # js) (ext t)"
          using h(1,2,3) Inr ok by simp
        with f h(4) show ?thesis by blast
      qed
    qed
  qed
qed

text \<open>
  C7: for every candidate list, once the gatherer and its agent are there,
  \<^verbatim>\<open>SetRemoteCandidates\<close> either returns no error, and then every candidate was converted
  and handed to the agent, in the order of the list, and the agent returned no error for
  any of them; or it returns the error of the first candidate whose conversion or
  addition fails, and then the candidates before it were converted and handed to the
  agent, in order, the agent returned no error for any of them, they stay applied (the
  transport is the one they left, with the failed addition if it was attempted), and no
  later candidate is looked at.
\<close>

theorem SetRemoteCandidates_fail_fast:
  assumes "ensureGatherer env t = (None, t1)"
    and "gatherer t1 = Some g"
    and "getAgent env g (ext t1) = Some a"
    and "SetRemoteCandidates env cs t = (out, t')"
  shows
    "(out = Returns None \<and>
      (\<exists>is. map (toICE env) cs = map Inr is \<and> added_ok env a is (ext t1) \<and>
            t' = applied env a is t1 \<and>
            trace t' = trace t1 @ map (\<lambda>i. EvAddRemoteCandidate a (Some i)) is)) \<or>
     (\<exists>pre c post is e.
        cs = pre @ c # post \<and> map (toICE env) pre = map Inr is \<and> added_ok env a is (ext t1) \<and>
        out = Returns (Some e) \<and> fails_at env a c is e t1 t' \<and>
        trace t' = trace t1 @ map (\<lambda>i. EvAddRemoteCandidate a (Some i)) is
                   @ (case toICE env c of Inl _ \<Rightarrow> [] | Inr i \<Rightarrow> [EvAddRemoteCandidate a (Some i)]))"
proof -
  have l: "SetRemoteCandidates_loop env a cs t1 = (out, t')"
    using assms by (simp add: SetRemoteCandidates_def)
  from loop_cases [OF l] show ?thesis
  proof (elim disjE conjE exE)
    fix js
    assume "out = Returns None" "map (toICE env) cs = map Inr js" "added_ok env a js (ext t1)"
      "t' = applied env a js t1"
    then have "out = Returns None \<and> map (toICE env) cs = map Inr js \<and>
        added_ok env a js (ext t1) \<and> t' = applied env a js t1 \<and>
        trace t' = trace t1 @ map (\<lambda>i. EvAddRemoteCandidate a (Some i)) js"
      by (simp add: trace_applied)
    then show ?thesis by blast
  next
    fix pre c post js e
    assume h: "cs = pre @ c # post" "map (toICE env) pre = map Inr js"
      "added_ok env a js (ext t1)"
      "out = Returns (Some e)" "fails_at env a c js e t1 t'"
    have "trace t' = trace t1 @ map (\<lambda>i. EvAddRemoteCandidate a (Some i)) js
                   @ (case toICE env c of Inl _ \<Rightarrow> [] | Inr i \<Rightarrow> [EvAddRemoteCandidate a (Some i)])"
      using h(5) by (auto simp: fails_at_def trace_applied split: sum.splits)
    with h show ?thesis by blast
  qed
qed

text \<open>An agent that refuses candidate 2, a conversion that fails on 9, and a list that passes.\<close>

theorem SetRemoteCandidates_fail_fast_witness:
  "ensureGatherer picky_env started = (None, started) \<and>
   gatherer started = Some 0 \<and> getAgent picky_env 0 (ext started) = Some 7 \<and>
   fst (SetRemoteCandidates picky_env [1, 2, 3] started) = Returns (Some (External ''refused'')) \<and>
   trace (snd (SetRemoteCandidates picky_env [1, 2, 3] started)) =
     trace started @ [EvAddRemoteCandidate 7 (Some 1), EvAddRemoteCandidate 7 (Some 2)] \<and>
   fst (SetRemoteCandidates picky_env [1, 9, 3] started)
     = Returns (Some (External ''bad candidate'')) \<and>
   trace (snd (SetRemoteCandidates picky_env [1, 9, 3] started)) =
     trace started @ [EvAddRemoteCandidate 7 (Some 1)] \<and>
   fst (SetRemoteCandidates picky_env [1, 3] started) = Returns None \<and>
   trace (snd (SetRemoteCandidates picky_env [1, 3] started)) =
     trace started @ [EvAddRemoteCandidate 7 (Some 1), EvAddRemoteCandidate 7 (Some 3)]"
proof -
  have h1: "ensureGatherer picky_env started = (None, started)"
    by (simp add: started_eq) (simp add: model_defs double_defs)
  have h2: "gatherer started = Some 0"
    by (simp add: started_eq)
  have h3: "getAgent picky_env 0 (ext started) = Some 7"
    by (simp add: started_eq) (simp add: double_defs)
  have h4: "SetRemoteCandidates picky_env [1, 2, 3] started =
              (fst (SetRemoteCandidates picky_env [1, 2, 3] started),
               snd (SetRemoteCandidates picky_env [1, 2, 3] started))"
    by simp
  have v: "SetRemoteCandidates picky_env cs started =
             SetRemoteCandidates_loop picky_env 7 cs started" for cs
    using h1 h2 h3 by (simp add: SetRemoteCandidates_def)
  from SetRemoteCandidates_fail_fast [OF h1 h2 h3 h4] h1 h2 h3 show ?thesis
    unfolding v by (simp add: call_eq picky_env_def double_env_def)
qed

text \<open>
  C8 as the specification states it has \<^verbatim>\<open>setRemoteCredentials\<close> go through
  \<open>ensureGatherer\<close>, which creates the agent when the gatherer has none. It does not: on
  the fresh transport \<open>ensureGatherer\<close> succeeds and leaves an agent, and
  \<^verbatim>\<open>setRemoteCredentials\<close> fails and leaves the transport and the gatherer as they were.
\<close>

theorem setRemoteCredentials_counterexample:
  "fst (ensureGatherer double_env fresh) = None \<and>
   getAgent double_env 0 (ext (snd (ensureGatherer double_env fresh))) = Some 7 \<and>
   setRemoteCredentials double_env ''uf2'' ''pw2'' fresh =
     (Returns (Some (Errorf_w errICEAgentNotExist ''unable to SetRemoteCredentials'')), fresh)"
  by (simp add: model_defs double_defs)

text \<open>
  C8, as amended: on a transport with a gatherer, \<^verbatim>\<open>setRemoteCredentials\<close> creates no
  agent; when the gatherer has no agent it returns the wrapped \<^verbatim>\<open>errICEAgentNotExist\<close> and
  changes nothing; when it has one, the credentials are passed to the agent's
  \<^verbatim>\<open>SetRemoteCredentials\<close>, whose result is returned.
\<close>

theorem setRemoteCredentials_agent:
  assumes "gatherer t = Some g"
  shows "(getAgent env g (ext t) = None \<longrightarrow>
            setRemoteCredentials env u p t =
              (Returns (Some (Errorf_w errICEAgentNotExist ''unable to SetRemoteCredentials'')), t)) \<and>
         (getAgent env g (ext t) = Some a \<longrightarrow>
            setRemoteCredentials env u p t =
              (Returns (fst (agent_SetRemoteCredentials env a u p (ext t))),
               t\<lparr>ext := snd (agent_SetRemoteCredentials env a u p (ext t)),
                 trace := trace t @ [EvSetRemoteCredentials a u p]\<rparr>))"
  using assms by (simp add: setRemoteCredentials_def call_eq)

text \<open>On the fresh transport (no agent yet) and on the started one.\<close>

theorem setRemoteCredentials_agent_witness:
  "gatherer fresh = Some 0 \<and> getAgent double_env 0 (ext fresh) = None \<and>
   setRemoteCredentials double_env ''uf2'' ''pw2'' fresh =
     (Returns (Some (Errorf_w errICEAgentNotExist ''unable to SetRemoteCredentials'')), fresh) \<and>
   gatherer started = Some 0 \<and> getAgent double_env 0 (ext started) = Some 7 \<and>
   setRemoteCredentials double_env ''uf2'' ''pw2'' started =
     (Returns None, started\<lparr>trace := trace started @ [EvSetRemoteCredentials 7 ''uf2'' ''pw2'']\<rparr>)"
proof -
  have g1: "gatherer fresh = Some 0" and a1: "getAgent double_env 0 (ext fresh) = None"
    by (simp_all add: model_defs double_defs)
  have g2: "gatherer started = Some 0" and a2: "getAgent double_env 0 (ext started) = Some 7"
    by (simp_all add: started_eq double_env_def)
  from setRemoteCredentials_agent [OF g1, of double_env "''uf2''" "''pw2''" 0]
       setRemoteCredentials_agent [OF g2, of double_env "''uf2''" "''pw2''" 7]
       g1 a1 g2 a2
  show ?thesis
    by (simp add: double_env_def)
qed

end
